theory Spec2Isabelle
  imports Complex_Main "HOL-Library.Sublist"
begin

section \<open>The task tracker of LegalIntel: data model\<close>

text \<open>
  The development embeds the task mechanism of \<^verbatim>\<open>src/app/actions.ts\<close>
  (\<^verbatim>\<open>createTask\<close>, \<^verbatim>\<open>updateTask\<close>, \<^verbatim>\<open>processClassifyDocumentTask\<close>,
  \<^verbatim>\<open>processAskQuestionTask\<close>) and the observing hook \<^verbatim>\<open>useTask\<close>.

  Values the code treats as opaque (\<^verbatim>\<open>payload: any\<close>, the answer of the question flow, the
  fields of the classification that no branch inspects, the remaining fields of a lawyer
  document) are values of one type variable \<open>'v\<close>. Numbers are real numbers: hearings and
  costs need not be whole, but the rounding, the infinities and the NaN of the doubles that
  the code computes with are not modelled. Identifiers are strings.
\<close>

type_synonym userId = string
type_synonym taskId = string

datatype task_status = Pending | Processing | Completed | Failed

text \<open>The output of \<^verbatim>\<open>classifyDocument\<close>: the two fields the task code reads, and the rest.\<close>

record 'v classify_output =
  lawyerCategory :: string
  estimatedHearings :: real
  otherFields :: 'v

text \<open>
  A document of the \<^verbatim>\<open>lawyers\<close> collection, with its id. (The documents that
  \<^verbatim>\<open>addLawyer\<close> writes have no field \<^verbatim>\<open>id\<close>, so \<^verbatim>\<open>{ id: doc.id, ...doc.data() }\<close> is the
  document with its id.)
\<close>

record 'v lawyer =
  lawyer_id :: string
  specialty :: string
  costPerHearing :: real
  otherData :: 'v

text \<open>
  \<^verbatim>\<open>estimatedCostRange\<close> is either the text \<^verbatim>\<open>N/A\<close> or a text made of the least and the
  greatest cost; the two numbers are kept instead of their rendering.
\<close>

datatype cost_range = NotAvailable | CostRange real real

text \<open>
  \<^verbatim>\<open>finalResult\<close>: the classification spread into a new object, together with
  \<^verbatim>\<open>recommendedLawyers\<close> and the cost range put into \<^verbatim>\<open>expenditureAnalysis\<close>.
\<close>

record 'v final_result =
  analysis :: "'v classify_output"
  recommendedLawyers :: "'v lawyer list"
  estimatedCostRange :: cost_range

text \<open>
  What the field \<^verbatim>\<open>result\<close> of a task document holds: the final result of a
  classification, the answer of the question flow, or a value that the caller of
  \<^verbatim>\<open>createTask\<close> put there.
\<close>

datatype 'v task_result = ClassifyResult "'v final_result" | AskResult 'v | CallerValue 'v

text \<open>
  The argument \<^verbatim>\<open>taskData: { type: string, payload: any }\<close> of \<^verbatim>\<open>createTask\<close>. The type is
  open: \<^verbatim>\<open>createTask\<close> is an exported server action, and an object with more fields is
  accepted. Of the further fields the two that the task document also uses are kept,
  \<^verbatim>\<open>result\<close> and \<^verbatim>\<open>error\<close> (\<open>None\<close> when the argument has no such field; an \<^verbatim>\<open>error\<close> is taken
  as text). A \<^verbatim>\<open>status\<close> or \<^verbatim>\<open>createdAt\<close> of the argument is overwritten by the spread.
\<close>

record 'v taskData =
  type :: string
  payload :: 'v
  result :: "'v task_result option"
  error :: "string option"

text \<open>
  A document of \<^verbatim>\<open>users/{userId}/tasks\<close>. It starts as
  \<^verbatim>\<open>{...taskData, status: 'pending', createdAt}\<close>: every field of the argument, then the
  two fields that \<^verbatim>\<open>createTask\<close> sets.
\<close>

record 'v task_record = "'v taskData" +
  status :: task_status
  createdAt :: nat

text \<open>A document of \<^verbatim>\<open>users/{userId}/history\<close>.\<close>

record 'v history_entry =
  saved_result :: "'v final_result"
  saved_file :: 'v
  saved_at :: nat

text \<open>
  The log is an instrument of the model: it records, in order, every write that the task
  collection accepted (with the document as that write left it) and every call of a flow.
  The documents written to one task are its revisions, which is what a listener on that
  document is sent.
\<close>

datatype 'v event =
    Wrote userId taskId "'v task_record"
  | Invoked userId taskId string

record 'v store =
  tasks :: "userId \<times> taskId \<rightharpoonup> 'v task_record"
  history :: "(userId \<times> 'v history_entry) list"
  lawyers :: "'v lawyer list"
  event_log :: "'v event list"

text \<open>
  What a called flow does: it returns a value, it returns the object \<^verbatim>\<open>{ error: m }\<close>, or
  it throws an exception whose \<^verbatim>\<open>message\<close> is \<open>m\<close>. (The flows catch their own exceptions
  and return \<^verbatim>\<open>{ error: ... }\<close>; a returned value that is no object makes the test
  \<^verbatim>\<open>'error' in result\<close> throw, which is the third case.)
\<close>

datatype 'r handler_outcome = Returns 'r | ReturnsError string | Throws string

text \<open>
  The answers of the world outside the code during one submission: the server's clock,
  what \<^verbatim>\<open>add\<close> on the task collection does (it throws, or it generates an id), whether
  \<^verbatim>\<open>update\<close> throws for a given status, what the two flows answer for a payload, whether the
  lawyer query and the history write throw. For the writes, \<open>None\<close> is acceptance and
  \<open>Some m\<close> an exception with message \<open>m\<close>.
\<close>

record 'v world =
  now :: nat
  add_result :: "string + taskId"
  update_result :: "task_status \<Rightarrow> string option"
  classifyDocument :: "'v \<Rightarrow> 'v classify_output handler_outcome"
  askDocumentQuestion :: "'v \<Rightarrow> 'v handler_outcome"
  lawyers_query_result :: "string option"
  history_add_result :: "string option"

section \<open>Storage operations\<close>

text \<open>
  \<^verbatim>\<open>collection.add(data)\<close> creates a document under a generated id; creation is refused
  when a document of that id exists.
\<close>

definition addDoc ::
  "'v world \<Rightarrow> 'v store \<Rightarrow> userId \<Rightarrow> 'v task_record \<Rightarrow> string + (taskId \<times> 'v store)" where
  "addDoc w s userId t =
     (case add_result w of
        Inl m \<Rightarrow> Inl m
      | Inr tid \<Rightarrow>
          (if tasks s (userId, tid) \<noteq> None then Inl ''ALREADY_EXISTS''
           else Inr (tid, s\<lparr>tasks := (tasks s)((userId, tid) \<mapsto> t),
                              event_log := event_log s @ [Wrote userId tid t]\<rparr>)))"

text \<open>The three shapes of \<^verbatim>\<open>data\<close> that \<^verbatim>\<open>updateTask\<close> is called with.\<close>

datatype 'v update_data =
    StatusProcessing
  | StatusCompleted "'v task_result"
  | StatusFailed string

fun written_status :: "'v update_data \<Rightarrow> task_status" where
  "written_status StatusProcessing = Processing"
| "written_status (StatusCompleted r) = Completed"
| "written_status (StatusFailed m) = Failed"

text \<open>\<^verbatim>\<open>update\<close> merges the given fields into the document and leaves the others.\<close>

fun merge_update :: "'v update_data \<Rightarrow> 'v task_record \<Rightarrow> 'v task_record" where
  "merge_update StatusProcessing t = t\<lparr>status := Processing\<rparr>"
| "merge_update (StatusCompleted r) t = t\<lparr>status := Completed, result := Some r\<rparr>"
| "merge_update (StatusFailed m) t = t\<lparr>status := Failed, error := Some m\<rparr>"

text \<open>
  \<^verbatim>\<open>updateTask\<close>: \<^verbatim>\<open>await taskRef.update(data)\<close>. It throws when the store refuses the
  write, and when the document does not exist. A write that throws has not changed the
  document.
\<close>

definition updateTask ::
  "'v world \<Rightarrow> 'v store \<Rightarrow> userId \<Rightarrow> taskId \<Rightarrow> 'v update_data \<Rightarrow> string + 'v store" where
  "updateTask w s userId taskId data =
     (case update_result w (written_status data) of
        Some m \<Rightarrow> Inl m
      | None \<Rightarrow>
          (case tasks s (userId, taskId) of
             None \<Rightarrow> Inl ''NOT_FOUND''
           | Some t \<Rightarrow>
               Inr (s\<lparr>tasks := (tasks s)((userId, taskId) \<mapsto> merge_update data t),
                       event_log := event_log s @ [Wrote userId taskId (merge_update data t)]\<rparr>)))"

section \<open>The handlers\<close>

text \<open>
  The \<^verbatim>\<open>catch (e)\<close> block of both handlers: one more update, to \<^verbatim>\<open>failed\<close> with
  \<^verbatim>\<open>e.message\<close>. When that update throws too, the promise of the handler is rejected, nobody
  awaits it, and the store stays as it was.
\<close>

definition catch_failed :: "'v world \<Rightarrow> 'v store \<Rightarrow> userId \<Rightarrow> taskId \<Rightarrow> string \<Rightarrow> 'v store" where
  "catch_failed w s userId taskId m =
     (case updateTask w s userId taskId (StatusFailed m) of
        Inl m' \<Rightarrow> s
      | Inr s' \<Rightarrow> s')"

definition processAskQuestionTask ::
  "'v world \<Rightarrow> 'v store \<Rightarrow> userId \<Rightarrow> taskId \<Rightarrow> 'v \<Rightarrow> 'v store" where
  "processAskQuestionTask w s userId taskId pl =
     (case updateTask w s userId taskId StatusProcessing of
        Inl m \<Rightarrow> catch_failed w s userId taskId m
      | Inr s1 \<Rightarrow>
          (let s2 = s1\<lparr>event_log := event_log s1 @ [Invoked userId taskId ''askQuestion'']\<rparr> in
           case askDocumentQuestion w pl of
             Throws m \<Rightarrow> catch_failed w s2 userId taskId m
           | ReturnsError m \<Rightarrow> catch_failed w s2 userId taskId m
           | Returns r \<Rightarrow>
               (case updateTask w s2 userId taskId (StatusCompleted (AskResult r)) of
                  Inl m \<Rightarrow> catch_failed w s2 userId taskId m
                | Inr s3 \<Rightarrow> s3)))"

text \<open>
  The lawyer lookup \<^verbatim>\<open>where('specialty', '==', category).limit(3).get()\<close>; it can throw.
\<close>

definition query_lawyers :: "'v world \<Rightarrow> 'v store \<Rightarrow> string \<Rightarrow> string + 'v lawyer list" where
  "query_lawyers w s category =
     (case lawyers_query_result w of
        Some m \<Rightarrow> Inl m
      | None \<Rightarrow> Inr (take 3 (filter (\<lambda>l. specialty l = category) (lawyers s))))"

text \<open>
  The cost range of lines 70 to 80: the costs of the found lawyers for the estimated
  hearings, the positive ones only, and their least and greatest.
\<close>

definition cost_range_of :: "real \<Rightarrow> 'v lawyer list \<Rightarrow> cost_range" where
  "cost_range_of hearings found =
     (if hearings > 0 \<and> length found > 0 then
        (case filter (\<lambda>c. c > 0) (map (\<lambda>l. costPerHearing l * hearings) found) of
           [] \<Rightarrow> NotAvailable
         | c # cs \<Rightarrow> CostRange (fold min cs c) (fold max cs c))
      else NotAvailable)"

definition make_final_result :: "'v classify_output \<Rightarrow> 'v lawyer list \<Rightarrow> cost_range \<Rightarrow> 'v final_result" where
  "make_final_result r found cr =
     \<lparr>analysis = r, recommendedLawyers = found, estimatedCostRange = cr\<rparr>"

text \<open>
  Lines 57 to 91. Without a category, and for an empty snapshot, the list stays empty and
  the range \<^verbatim>\<open>N/A\<close>.
\<close>

definition build_final_result ::
  "'v world \<Rightarrow> 'v store \<Rightarrow> 'v classify_output \<Rightarrow> string + 'v final_result" where
  "build_final_result w s r =
     (if lawyerCategory r \<noteq> [] then
        (case query_lawyers w s (lawyerCategory r) of
           Inl m \<Rightarrow> Inl m
         | Inr found \<Rightarrow>
             (if found \<noteq> [] then
                Inr (make_final_result r found (cost_range_of (estimatedHearings r) found))
              else Inr (make_final_result r [] NotAvailable)))
      else Inr (make_final_result r [] NotAvailable))"

text \<open>
  Lines 93 to 105: the write to the history has a \<^verbatim>\<open>try\<close> of its own, whose \<^verbatim>\<open>catch\<close>
  only prints.
\<close>

definition save_to_history ::
  "'v world \<Rightarrow> 'v store \<Rightarrow> userId \<Rightarrow> 'v final_result \<Rightarrow> 'v \<Rightarrow> 'v store" where
  "save_to_history w s userId fr pl =
     (case history_add_result w of
        Some m \<Rightarrow> s
      | None \<Rightarrow>
          s\<lparr>history := history s @
              [(userId, \<lparr>saved_result = fr, saved_file = pl, saved_at = now w\<rparr>)]\<rparr>)"

definition processClassifyDocumentTask ::
  "'v world \<Rightarrow> 'v store \<Rightarrow> userId \<Rightarrow> taskId \<Rightarrow> 'v \<Rightarrow> 'v store" where
  "processClassifyDocumentTask w s userId taskId pl =
     (case updateTask w s userId taskId StatusProcessing of
        Inl m \<Rightarrow> catch_failed w s userId taskId m
      | Inr s1 \<Rightarrow>
          (let s2 = s1\<lparr>event_log := event_log s1 @ [Invoked userId taskId ''classifyDocument'']\<rparr> in
           case classifyDocument w pl of
             Throws m \<Rightarrow> catch_failed w s2 userId taskId m
           | ReturnsError m \<Rightarrow> catch_failed w s2 userId taskId m
           | Returns r \<Rightarrow>
               (case build_final_result w s2 r of
                  Inl m \<Rightarrow> catch_failed w s2 userId taskId m
                | Inr finalResult \<Rightarrow>
                    (let s3 = save_to_history w s2 userId finalResult pl in
                     case updateTask w s3 userId taskId (StatusCompleted (ClassifyResult finalResult)) of
                       Inl m \<Rightarrow> catch_failed w s3 userId taskId m
                     | Inr s4 \<Rightarrow> s4))))"

section \<open>Submission\<close>

text \<open>The value \<^verbatim>\<open>{ taskId } | { error }\<close> that \<^verbatim>\<open>createTask\<close> resolves to.\<close>

datatype response = TaskId taskId | Error string

text \<open>
  A handler that \<^verbatim>\<open>createTask\<close> has called without awaiting it. Its writes reach the store
  after \<^verbatim>\<open>createTask\<close> has returned.
\<close>

datatype 'v job =
    ClassifyJob userId taskId 'v
  | AskJob userId taskId 'v

definition new_task :: "'v world \<Rightarrow> 'v taskData \<Rightarrow> 'v task_record" where
  "new_task w td =
     \<lparr>type = type td, payload = payload td, result = result td, error = error td,
      status = Pending, createdAt = now w\<rparr>"

text \<open>
  \<^verbatim>\<open>createTask\<close>. \<^verbatim>\<open>!userId\<close> holds for the empty string, \<^verbatim>\<open>!taskData\<close> for \<^verbatim>\<open>null\<close>. The
  result is the response, the store after the initial write, and the handler that was
  started, if any. An \<^verbatim>\<open>async\<close> function never throws into its caller, so the \<^verbatim>\<open>catch\<close> of
  \<^verbatim>\<open>createTask\<close> is reached from \<^verbatim>\<open>add\<close> only.
\<close>

definition createTask ::
  "'v world \<Rightarrow> 'v store \<Rightarrow> userId \<Rightarrow> 'v taskData option \<Rightarrow> response \<times> 'v store \<times> 'v job option" where
  "createTask w s userId taskData =
     (case taskData of
        None \<Rightarrow> (Error ''User ID and task data are required.'', s, None)
      | Some td \<Rightarrow>
          (if userId = [] then (Error ''User ID and task data are required.'', s, None)
           else
             (case addDoc w s userId (new_task w td) of
                Inl m \<Rightarrow> (Error (''Failed to create the task. '' @ m), s, None)
              | Inr (tid, s1) \<Rightarrow>
                  (TaskId tid, s1,
                   if type td = ''classifyDocument'' then Some (ClassifyJob userId tid (payload td))
                   else if type td = ''askQuestion'' then Some (AskJob userId tid (payload td))
                   else None))))"

fun run_job :: "'v world \<Rightarrow> 'v store \<Rightarrow> 'v job \<Rightarrow> 'v store" where
  "run_job w s (ClassifyJob userId taskId pl) = processClassifyDocumentTask w s userId taskId pl"
| "run_job w s (AskJob userId taskId pl) = processAskQuestionTask w s userId taskId pl"

text \<open>
  A submission seen from outside: the response of \<^verbatim>\<open>createTask\<close>, and the store once the
  handler it started, if any, has settled.
\<close>

definition submit ::
  "'v world \<Rightarrow> 'v store \<Rightarrow> userId \<Rightarrow> 'v taskData option \<Rightarrow> response \<times> 'v store" where
  "submit w s userId taskData =
     (case createTask w s userId taskData of
        (r, s1, None) \<Rightarrow> (r, s1)
      | (r, s1, Some j) \<Rightarrow> (r, run_job w s1 j))"

text \<open>
  Any number of submissions, each with the answers the world gives during it. In the code
  the handlers of different submissions run side by side; each of them writes the one task
  document it was started for, so the revisions of a task are those of its own handler
  however the handlers interleave. Here each handler settles before the next submission.
\<close>

fun submit_all :: "'v store \<Rightarrow> ('v world \<times> userId \<times> 'v taskData option) list \<Rightarrow> 'v store" where
  "submit_all s [] = s"
| "submit_all s ((w, userId, taskData) # rest) = submit_all (snd (submit w s userId taskData)) rest"

definition empty_store :: "'v lawyer list \<Rightarrow> 'v store" where
  "empty_store ls = \<lparr>tasks = Map.empty, history = [], lawyers = ls, event_log = []\<rparr>"

section \<open>Observation\<close>

text \<open>
  What the listener registered by \<^verbatim>\<open>onSnapshot\<close> is called with: a snapshot of the
  document (\<open>None\<close> when \<^verbatim>\<open>docSnap.exists()\<close> is false), or an error.
\<close>

datatype 'v listener_event =
    DocSnapshot "'v task_record option"
  | ListenerError string

text \<open>
  The state of one use of the hook \<^verbatim>\<open>useTask\<close>: its three state variables, whether its
  listener is attached, and (an instrument of the model) the arguments \<^verbatim>\<open>onUpdate\<close> has been
  called with, in order.
\<close>

record 'v hook =
  task :: "'v task_record option"
  isLoading :: bool
  hook_error :: "string option"
  subscribed :: bool
  onUpdate_calls :: "'v task_record list"

definition initial_hook :: "'v hook" where
  "initial_hook =
     \<lparr>task = None, isLoading = False, hook_error = None, subscribed = False, onUpdate_calls = []\<rparr>"

text \<open>The first callback given to \<^verbatim>\<open>onSnapshot\<close> (lines 27 to 41 of the hook).\<close>

definition on_snapshot :: "'v hook \<Rightarrow> 'v task_record option \<Rightarrow> 'v hook" where
  "on_snapshot h docSnap =
     (case docSnap of
        Some taskData \<Rightarrow>
          (let h1 = h\<lparr>task := Some taskData, onUpdate_calls := onUpdate_calls h @ [taskData]\<rparr> in
           if status taskData = Completed \<or> status taskData = Failed
           then h1\<lparr>isLoading := False, subscribed := False\<rparr>
           else h1)
      | None \<Rightarrow> h\<lparr>hook_error := Some ''Task not found.'', isLoading := False\<rparr>)"

text \<open>
  The second callback (lines 41 to 45). A listener that has failed is detached by the
  store: it is called no more.
\<close>

definition on_listen_error :: "'v hook \<Rightarrow> string \<Rightarrow> 'v hook" where
  "on_listen_error h err =
     h\<lparr>hook_error := Some ''Failed to get task status.'', isLoading := False, subscribed := False\<rparr>"

text \<open>The store calls the listener for an event only while it is attached.\<close>

definition dispatch :: "'v hook \<Rightarrow> 'v listener_event \<Rightarrow> 'v hook" where
  "dispatch h ev =
     (if subscribed h then
        (case ev of
           DocSnapshot docSnap \<Rightarrow> on_snapshot h docSnap
         | ListenerError err \<Rightarrow> on_listen_error h err)
      else h)"

text \<open>
  The body of the effect: \<^verbatim>\<open>!taskId\<close> holds for \<^verbatim>\<open>null\<close> and for the empty string,
  \<^verbatim>\<open>!user\<close> for \<^verbatim>\<open>null\<close>.
\<close>

definition useEffect_body :: "taskId option \<Rightarrow> userId option \<Rightarrow> 'v hook \<Rightarrow> 'v hook" where
  "useEffect_body taskId user h =
     (if taskId = None \<or> taskId = Some [] \<or> user = None
      then h\<lparr>isLoading := False, task := None\<rparr>
      else h\<lparr>isLoading := True, hook_error := None, subscribed := True\<rparr>)"

text \<open>The cleanup of the effect, \<^verbatim>\<open>() => unsubscribe()\<close>.\<close>

definition useEffect_cleanup :: "'v hook \<Rightarrow> 'v hook" where
  "useEffect_cleanup h = h\<lparr>subscribed := False\<rparr>"

text \<open>The hook after its effect has run and the store has sent the given events.\<close>

definition useTask :: "taskId option \<Rightarrow> userId option \<Rightarrow> 'v listener_event list \<Rightarrow> 'v hook" where
  "useTask taskId user evs = foldl dispatch (useEffect_body taskId user initial_hook) evs"

section \<open>Vocabulary of the properties\<close>

fun terminal :: "task_status \<Rightarrow> bool" where
  "terminal Completed = True"
| "terminal Failed = True"
| "terminal Pending = False"
| "terminal Processing = False"

text \<open>The revisions of one task: the documents written to it, in the order of the writes.\<close>

fun revisions :: "userId \<times> taskId \<Rightarrow> 'v event list \<Rightarrow> 'v task_record list" where
  "revisions k [] = []"
| "revisions k (Wrote u t d # es) =
     (if (u, t) = k then d # revisions k es else revisions k es)"
| "revisions k (Invoked u t h # es) = revisions k es"

text \<open>The status values written to one task, in the order of the writes.\<close>

definition status_writes :: "userId \<times> taskId \<Rightarrow> 'v event list \<Rightarrow> task_status list" where
  "status_writes k es = map status (revisions k es)"

text \<open>The events of the log that are about one task.\<close>

fun concerns :: "userId \<times> taskId \<Rightarrow> 'v event \<Rightarrow> bool" where
  "concerns k (Wrote u t d) = ((u, t) = k)"
| "concerns k (Invoked u t h) = ((u, t) = k)"

text \<open>No status follows a terminal one.\<close>

fun terminal_is_last :: "task_status list \<Rightarrow> bool" where
  "terminal_is_last [] = True"
| "terminal_is_last [st] = True"
| "terminal_is_last (st # st' # sts) = (\<not> terminal st \<and> terminal_is_last (st' # sts))"


section \<open>Vocabulary of the proofs\<close>

text \<open>
  What a handler does to its own task: the revisions it writes, and the document it leaves,
  from the document \<open>t0\<close> it found.
\<close>

definition job_effect :: "'v task_record \<Rightarrow> 'v task_record list \<Rightarrow> 'v task_record \<Rightarrow> bool" where
  "job_effect t0 revs t1 =
     ((revs = [] \<and> t1 = t0)
      \<or> (revs = [t0\<lparr>status := Processing\<rparr>] \<and> t1 = t0\<lparr>status := Processing\<rparr>)
      \<or> (\<exists>m. revs = [t0\<lparr>status := Failed, error := Some m\<rparr>]
             \<and> t1 = t0\<lparr>status := Failed, error := Some m\<rparr>)
      \<or> (\<exists>r. revs = [t0\<lparr>status := Processing\<rparr>, t0\<lparr>status := Completed, result := Some r\<rparr>]
             \<and> t1 = t0\<lparr>status := Completed, result := Some r\<rparr>)
      \<or> (\<exists>m. revs = [t0\<lparr>status := Processing\<rparr>, t0\<lparr>status := Failed, error := Some m\<rparr>]
             \<and> t1 = t0\<lparr>status := Failed, error := Some m\<rparr>))"

text \<open>
  A run from \<open>s\<close> to \<open>s'\<close> that touches the task \<open>k\<close> only: every new event is about \<open>k\<close>,
  every other task document is as before.
\<close>

definition settles :: "'v store \<Rightarrow> userId \<times> taskId \<Rightarrow> 'v task_record \<Rightarrow> 'v store \<Rightarrow> bool" where
  "settles s k t0 s' =
     (\<exists>evs t1. event_log s' = event_log s @ evs \<and> (\<forall>e \<in> set evs. concerns k e)
        \<and> tasks s' = (tasks s)(k \<mapsto> t1) \<and> lawyers s' = lawyers s
        \<and> job_effect t0 (revisions k evs) t1)"

text \<open>
  The five histories a task can have: the last revision is the document, and the statuses
  follow one of five paths.
\<close>

definition shape_ok :: "'v task_record list \<Rightarrow> 'v task_record \<Rightarrow> bool" where
  "shape_ok revs t =
     (revs \<noteq> [] \<and> last revs = t \<and>
      (map status revs = [Pending]
       \<or> map status revs = [Pending, Processing]
       \<or> map status revs = [Pending, Failed]
       \<or> map status revs = [Pending, Processing, Completed]
       \<or> map status revs = [Pending, Processing, Failed]))"

text \<open>
  The invariant of the store: the log knows nothing of a task that does not exist, and
  every task that exists has one of the five histories.
\<close>

definition store_inv :: "'v store \<Rightarrow> bool" where
  "store_inv s =
     (\<forall>k. case tasks s k of
             None \<Rightarrow> filter (concerns k) (event_log s) = []
           | Some t \<Rightarrow> shape_ok (revisions k (event_log s)) t)"



section \<open>Sample inputs\<close>

text \<open>A world in which every write is accepted and both flows answer.\<close>

definition sample_answer :: "string classify_output" where
  "sample_answer = \<lparr>lawyerCategory = ''Contract Law'', estimatedHearings = 2, otherFields = ''summary''\<rparr>"

definition sample_lawyers :: "string lawyer list" where
  "sample_lawyers =
     [\<lparr>lawyer_id = ''l1'', specialty = ''Contract Law'', costPerHearing = 500, otherData = ''A''\<rparr>,
      \<lparr>lawyer_id = ''l2'', specialty = ''Family Law'', costPerHearing = 300, otherData = ''B''\<rparr>,
      \<lparr>lawyer_id = ''l3'', specialty = ''Contract Law'', costPerHearing = 200, otherData = ''C''\<rparr>]"

definition calm_world :: "string world" where
  "calm_world =
     \<lparr>now = 7, add_result = Inr ''t1'', update_result = (\<lambda>st. None),
      classifyDocument = (\<lambda>pl. Returns sample_answer),
      askDocumentQuestion = (\<lambda>pl. Returns pl),
      lawyers_query_result = None, history_add_result = None\<rparr>"


text \<open>A world in which both flows fail and the history refuses the write.\<close>

definition stubborn_world :: "string world" where
  "stubborn_world =
     \<lparr>now = 9, add_result = Inr ''t2'', update_result = (\<lambda>st. None),
      classifyDocument = (\<lambda>pl. ReturnsError ''Failed to get a response from the AI. quota''),
      askDocumentQuestion = (\<lambda>pl. Throws ''disk full''),
      lawyers_query_result = None, history_add_result = Some ''history is read-only''\<rparr>"

definition ask_q :: "string taskData" where
  "ask_q = \<lparr>type = ''askQuestion'', payload = ''q'', result = None, error = None\<rparr>"

definition classify_f :: "string taskData" where
  "classify_f =
     \<lparr>type = ''classifyDocument'', payload = ''file'', result = None, error = None\<rparr>"

definition echo_x :: "string taskData" where
  "echo_x = \<lparr>type = ''echo'', payload = ''x'', result = None, error = None\<rparr>"

definition listening_hook :: "string hook" where
  "listening_hook =
     \<lparr>task = None, isLoading = True, hook_error = None, subscribed = True, onUpdate_calls = []\<rparr>"

definition done_task :: "string task_record" where
  "done_task =
     \<lparr>type = ''askQuestion'', payload = ''q'', result = Some (AskResult ''answer''),
      error = None, status = Completed, createdAt = 7\<rparr>"

definition sample_final :: "string final_result" where
  "sample_final =
     \<lparr>analysis = sample_answer,
      recommendedLawyers =
        [\<lparr>lawyer_id = ''l1'', specialty = ''Contract Law'', costPerHearing = 500, otherData = ''A''\<rparr>,
         \<lparr>lawyer_id = ''l3'', specialty = ''Contract Law'', costPerHearing = 200, otherData = ''C''\<rparr>],
      estimatedCostRange = CostRange 400 1000\<rparr>"


text \<open>Stores that refuse one kind of status update.\<close>

definition refuse_completed :: "task_status \<Rightarrow> string option" where
  "refuse_completed st = (if st = Completed then Some ''RESOURCE_EXHAUSTED'' else None)"

definition refuse_failed :: "task_status \<Rightarrow> string option" where
  "refuse_failed st = (if st = Failed then Some ''UNAVAILABLE'' else None)"

definition pending_doc :: "string task_record" where
  "pending_doc =
     \<lparr>type = ''classifyDocument'', payload = ''file'', result = None, error = None,
      status = Pending, createdAt = 7\<rparr>"

definition pending_store :: "string store" where
  "pending_store =
     \<lparr>tasks = Map.empty((''u1'', ''t1'') \<mapsto> pending_doc), history = [],
      lawyers = sample_lawyers, event_log = [Wrote ''u1'' ''t1'' pending_doc]\<rparr>"

section \<open>Facts about the event_log and the storage operations\<close>

text \<open>The equations that run a submission on given inputs.\<close>

lemmas run_defs =
  submit_def createTask_def addDoc_def new_task_def updateTask_def catch_failed_def
  processAskQuestionTask_def processClassifyDocumentTask_def build_final_result_def
  query_lawyers_def cost_range_of_def make_final_result_def save_to_history_def
  empty_store_def Let_def

lemma revisions_append:
  "revisions k (xs @ ys) = revisions k xs @ revisions k ys"
  by (induction k xs rule: revisions.induct) auto

lemma revisions_filter: "revisions k (filter (concerns k) es) = revisions k es"
  by (induction k es rule: revisions.induct) auto

lemma no_events_no_revisions: "filter (concerns k) es = [] \<Longrightarrow> revisions k es = []"
  using revisions_filter[of k es] by simp

lemma foreign_events:
  assumes "\<forall>e \<in> set evs. concerns k e" and "k' \<noteq> k"
  shows "filter (concerns k') evs = []"
proof -
  have "\<not> concerns k' e" if "concerns k e" for e
    using that assms(2) by (cases e) auto
  with assms(1) show ?thesis by (auto simp: filter_empty_conv)
qed

lemma new_task_fields [simp]:
  "status (new_task w td) = Pending"
  "result (new_task w td) = result td"
  "error (new_task w td) = error td"
  by (simp_all add: new_task_def)

lemma build_final_result_update [simp]:
  "build_final_result w (s\<lparr>tasks := tk\<rparr>) r = build_final_result w s r"
  "build_final_result w (s\<lparr>history := hs\<rparr>) r = build_final_result w s r"
  "build_final_result w (s\<lparr>event_log := l\<rparr>) r = build_final_result w s r"
  "build_final_result (w\<lparr>history_add_result := ha\<rparr>) s r = build_final_result w s r"
  by (simp_all add: build_final_result_def query_lawyers_def split: option.splits)

lemma build_final_result_analysis:
  "build_final_result w s r = Inr fr \<Longrightarrow> analysis fr = r"
  by (auto simp: build_final_result_def make_final_result_def split: if_splits sum.splits)

lemma save_to_history_fields [simp]:
  "tasks (save_to_history w s u fr pl) = tasks s"
  "event_log (save_to_history w s u fr pl) = event_log s"
  "lawyers (save_to_history w s u fr pl) = lawyers s"
  by (simp_all add: save_to_history_def split: option.splits)

section \<open>A handler touches its own task only\<close>

lemma settles_refl: "tasks s k = Some t0 \<Longrightarrow> settles s k t0 s"
  by (simp add: settles_def job_effect_def fun_upd_idem)

lemma ask_settles:
  assumes "tasks s (u, t) = Some t0"
  shows "settles s (u, t) t0 (processAskQuestionTask w s u t pl)"
  using assms
  apply (simp add: processAskQuestionTask_def settles_def job_effect_def updateTask_def
                   catch_failed_def Let_def
              split: option.splits sum.splits handler_outcome.splits)
  apply (auto simp: fun_upd_idem)
  done

lemma classify_settles:
  assumes "tasks s (u, t) = Some t0"
  shows "settles s (u, t) t0 (processClassifyDocumentTask w s u t pl)"
  using assms
  apply (simp add: processClassifyDocumentTask_def settles_def job_effect_def updateTask_def
                   catch_failed_def Let_def
              split: option.splits sum.splits handler_outcome.splits)
  apply (auto simp: fun_upd_idem)
  done

lemma createTask_success:
  assumes "userId \<noteq> []" and "add_result w = Inr tid" and "tasks s (userId, tid) = None"
  shows "createTask w s userId (Some td) =
           (TaskId tid,
            s\<lparr>tasks := (tasks s)((userId, tid) \<mapsto> new_task w td),
               event_log := event_log s @ [Wrote userId tid (new_task w td)]\<rparr>,
            if type td = ''classifyDocument'' then Some (ClassifyJob userId tid (payload td))
            else if type td = ''askQuestion'' then Some (AskJob userId tid (payload td))
            else None)"
  using assms by (simp add: createTask_def addDoc_def)

lemma createTask_with_job:
  assumes "createTask w s u td = (r, s1, Some j)"
  shows "\<exists>tid. tasks s (u, tid) = None
           \<and> s1 = s\<lparr>tasks := (tasks s)((u, tid) \<mapsto> new_task w (the td)),
                     event_log := event_log s @ [Wrote u tid (new_task w (the td))]\<rparr>
           \<and> r = TaskId tid
           \<and> settles s1 (u, tid) (new_task w (the td)) (run_job w s1 j)"
  using assms
  by (auto simp: createTask_def addDoc_def ask_settles classify_settles
          split: option.splits if_splits sum.splits)

lemma createTask_without_job:
  assumes "createTask w s u td = (r, s1, None)"
  shows "s1 = s
         \<or> (\<exists>tid. tasks s (u, tid) = None
               \<and> s1 = s\<lparr>tasks := (tasks s)((u, tid) \<mapsto> new_task w (the td)),
                         event_log := event_log s @ [Wrote u tid (new_task w (the td))]\<rparr>
               \<and> r = TaskId tid)"
  using assms
  by (auto simp: createTask_def addDoc_def split: option.splits if_splits sum.splits)

text \<open>
  A submission leaves the store as it is, or it creates one task under an id that was
  free and touches that task only.
\<close>

lemma submit_cases:
  "snd (submit w s u td) = s \<or>
   (\<exists>tid s1. tasks s (u, tid) = None
      \<and> s1 = s\<lparr>tasks := (tasks s)((u, tid) \<mapsto> new_task w (the td)),
                event_log := event_log s @ [Wrote u tid (new_task w (the td))]\<rparr>
      \<and> fst (submit w s u td) = TaskId tid
      \<and> settles s1 (u, tid) (new_task w (the td)) (snd (submit w s u td)))"
proof -
  obtain r s1 j where c: "createTask w s u td = (r, s1, j)"
    by (cases "createTask w s u td") auto
  show ?thesis
  proof (cases j)
    case None
    with c have "submit w s u td = (r, s1)" by (simp add: submit_def)
    moreover from createTask_without_job[of w s u td r s1] c None
    have "s1 = s
          \<or> (\<exists>tid. tasks s (u, tid) = None
                \<and> s1 = s\<lparr>tasks := (tasks s)((u, tid) \<mapsto> new_task w (the td)),
                          event_log := event_log s @ [Wrote u tid (new_task w (the td))]\<rparr>
                \<and> r = TaskId tid)"
      by simp
    ultimately show ?thesis
      by (auto simp: settles_refl)
  next
    case (Some job)
    with c have "submit w s u td = (r, run_job w s1 job)" by (simp add: submit_def)
    moreover from createTask_with_job[of w s u td r s1 job] c Some
    obtain tid where "tasks s (u, tid) = None"
      "s1 = s\<lparr>tasks := (tasks s)((u, tid) \<mapsto> new_task w (the td)),
               event_log := event_log s @ [Wrote u tid (new_task w (the td))]\<rparr>"
      "r = TaskId tid" "settles s1 (u, tid) (new_task w (the td)) (run_job w s1 job)"
      by auto
    ultimately show ?thesis by auto
  qed
qed

lemma submit_frame:
  assumes "tasks s k = Some t"
  shows "tasks (snd (submit w s u td)) k = Some t
         \<and> filter (concerns k) (event_log (snd (submit w s u td))) = filter (concerns k) (event_log s)"
  using submit_cases[of w s u td]
proof
  assume "snd (submit w s u td) = s"
  with assms show ?thesis by simp
next
  assume "\<exists>tid s1. tasks s (u, tid) = None
      \<and> s1 = s\<lparr>tasks := (tasks s)((u, tid) \<mapsto> new_task w (the td)),
                event_log := event_log s @ [Wrote u tid (new_task w (the td))]\<rparr>
      \<and> fst (submit w s u td) = TaskId tid
      \<and> settles s1 (u, tid) (new_task w (the td)) (snd (submit w s u td))"
  then obtain tid s1 where fresh: "tasks s (u, tid) = None"
    and s1: "s1 = s\<lparr>tasks := (tasks s)((u, tid) \<mapsto> new_task w (the td)),
                    event_log := event_log s @ [Wrote u tid (new_task w (the td))]\<rparr>"
    and st: "settles s1 (u, tid) (new_task w (the td)) (snd (submit w s u td))"
    by blast
  from fresh assms have ne: "k \<noteq> (u, tid)" by auto
  from st obtain evs t1 where lg: "event_log (snd (submit w s u td)) = event_log s1 @ evs"
    and ev: "\<forall>e \<in> set evs. concerns (u, tid) e"
    and tk: "tasks (snd (submit w s u td)) = (tasks s1)((u, tid) \<mapsto> t1)"
    by (auto simp: settles_def)
  have "filter (concerns k) evs = []" using foreign_events[OF ev ne] .
  with lg s1 ne tk assms show ?thesis by auto
qed

lemma submit_all_frame:
  "tasks s k = Some t \<Longrightarrow>
     tasks (submit_all s subs) k = Some t
     \<and> filter (concerns k) (event_log (submit_all s subs)) = filter (concerns k) (event_log s)"
proof (induction s subs rule: submit_all.induct)
  case (1 s)
  then show ?case by simp
next
  case (2 s w userId taskData rest)
  from submit_frame[OF "2.prems", of w userId taskData]
  have a: "tasks (snd (submit w s userId taskData)) k = Some t"
    and b: "filter (concerns k) (event_log (snd (submit w s userId taskData)))
              = filter (concerns k) (event_log s)"
    by simp_all
  from "2.IH"[OF a] b show ?case by simp
qed

section \<open>The invariant of the store\<close>

lemma store_inv_absent:
  assumes "store_inv s" and "tasks s k = None"
  shows "filter (concerns k) (event_log s) = []"
proof -
  from assms(1) have "case tasks s k of None \<Rightarrow> filter (concerns k) (event_log s) = []
                      | Some t \<Rightarrow> shape_ok (revisions k (event_log s)) t"
    unfolding store_inv_def by (rule spec)
  with assms(2) show ?thesis by simp
qed

lemma store_inv_present:
  assumes "store_inv s" and "tasks s k = Some t"
  shows "shape_ok (revisions k (event_log s)) t"
proof -
  from assms(1) have "case tasks s k of None \<Rightarrow> filter (concerns k) (event_log s) = []
                      | Some t \<Rightarrow> shape_ok (revisions k (event_log s)) t"
    unfolding store_inv_def by (rule spec)
  with assms(2) show ?thesis by simp
qed

lemma job_effect_shape:
  assumes "job_effect t0 revs t1" and "status t0 = Pending"
  shows "shape_ok (t0 # revs) t1"
  using assms
  by (auto simp: job_effect_def shape_ok_def)


lemma submit_inv:
  assumes inv: "store_inv s"
  shows "store_inv (snd (submit w s u td))"
  using submit_cases[of w s u td]
proof
  assume "snd (submit w s u td) = s"
  with inv show ?thesis by simp
next
  assume "\<exists>tid s1. tasks s (u, tid) = None
      \<and> s1 = s\<lparr>tasks := (tasks s)((u, tid) \<mapsto> new_task w (the td)),
                event_log := event_log s @ [Wrote u tid (new_task w (the td))]\<rparr>
      \<and> fst (submit w s u td) = TaskId tid
      \<and> settles s1 (u, tid) (new_task w (the td)) (snd (submit w s u td))"
  then obtain tid s1 where fresh: "tasks s (u, tid) = None"
    and s1: "s1 = s\<lparr>tasks := (tasks s)((u, tid) \<mapsto> new_task w (the td)),
                    event_log := event_log s @ [Wrote u tid (new_task w (the td))]\<rparr>"
    and st: "settles s1 (u, tid) (new_task w (the td)) (snd (submit w s u td))"
    by blast
  let ?s' = "snd (submit w s u td)"
  from st obtain evs t1 where lg: "event_log ?s' = event_log s1 @ evs"
    and ev: "\<forall>e \<in> set evs. concerns (u, tid) e"
    and tk: "tasks ?s' = (tasks s1)((u, tid) \<mapsto> t1)"
    and je: "job_effect (new_task w (the td)) (revisions (u, tid) evs) t1"
    by (auto simp: settles_def)
  from inv fresh have "filter (concerns (u, tid)) (event_log s) = []"
    by (rule store_inv_absent)
  then have old: "revisions (u, tid) (event_log s) = []" by (rule no_events_no_revisions)
  show ?thesis
    unfolding store_inv_def
  proof
    fix k
    show "case tasks ?s' k of None \<Rightarrow> filter (concerns k) (event_log ?s') = []
          | Some t \<Rightarrow> shape_ok (revisions k (event_log ?s')) t"
    proof (cases "k = (u, tid)")
      case True
      have "revisions k (event_log ?s') = new_task w (the td) # revisions (u, tid) evs"
        using True lg s1 old by (simp add: revisions_append)
      moreover have "shape_ok (new_task w (the td) # revisions (u, tid) evs) t1"
        using je by (rule job_effect_shape) simp
      ultimately show ?thesis using True tk by simp
    next
      case False
      have "filter (concerns k) evs = []" using foreign_events[OF ev False] .
      then have f: "filter (concerns k) (event_log ?s') = filter (concerns k) (event_log s)"
        using lg s1 False by auto
      then have "revisions k (event_log ?s') = revisions k (event_log s)"
        using revisions_filter[of k "event_log ?s'"] revisions_filter[of k "event_log s"] by simp
      moreover have "tasks ?s' k = tasks s k" using tk s1 False by simp
      ultimately show ?thesis
        using f store_inv_absent[OF inv, of k] store_inv_present[OF inv, of k]
        by (cases "tasks s k") simp_all
    qed
  qed
qed

lemma submit_all_inv: "store_inv s \<Longrightarrow> store_inv (submit_all s subs)"
  by (induction s subs rule: submit_all.induct) (auto simp: submit_inv)

lemma empty_store_inv: "store_inv (empty_store ls)"
  by (simp add: store_inv_def empty_store_def)

lemma shape_ok_statuses:
  assumes "shape_ok revs t"
  shows "(subseq (map status revs) [Pending, Processing, Completed]
          \<or> subseq (map status revs) [Pending, Processing, Failed])
         \<and> terminal_is_last (map status revs)"
proof -
  from assms consider "map status revs = [Pending]" | "map status revs = [Pending, Processing]"
    | "map status revs = [Pending, Failed]" | "map status revs = [Pending, Processing, Completed]"
    | "map status revs = [Pending, Processing, Failed]"
    unfolding shape_ok_def by blast
  then show ?thesis by cases simp_all
qed




section \<open>Submission: validation, the initial write, the response\<close>

text \<open>
  Claim C1, as the code has it. \<^verbatim>\<open>createTask\<close> rejects a call whose owner is empty or whose
  task data is missing: it answers \<^verbatim>\<open>User ID and task data are required.\<close> at once, creates
  no task document, writes nothing and starts no handler. The guard does not look at the
  type.
\<close>

theorem createTask_validation:
  "userId = [] \<or> taskData = None \<Longrightarrow>
     createTask w s userId taskData = (Error ''User ID and task data are required.'', s, None)
     \<and> submit w s userId taskData = (Error ''User ID and task data are required.'', s)"
  by (auto simp: createTask_def submit_def split: option.splits)

text \<open>Claim C1, amended: the empty owner of the scenario \<^verbatim>\<open>submit("", {type:"echo", payload:"x"})\<close>.\<close>

theorem createTask_validation_witness:
  "createTask calm_world (empty_store sample_lawyers) [] (Some echo_x)
     = (Error ''User ID and task data are required.'', empty_store sample_lawyers, None)
   \<and> submit calm_world (empty_store sample_lawyers) [] (Some echo_x)
     = (Error ''User ID and task data are required.'', empty_store sample_lawyers)"
proof -
  have "[] = ([] :: userId) \<or> Some echo_x = None" by simp
  then show ?thesis by (rule createTask_validation)
qed

text \<open>
  Claim C1 as stated fails: with an owner, a type that names no handler (\<^verbatim>\<open>echo\<close>) and the
  empty type are both accepted. The call returns the id of the new task, and the task
  document exists with status \<^verbatim>\<open>pending\<close>.
\<close>

theorem createTask_accepts_unknown_type:
  "fst (createTask calm_world (empty_store sample_lawyers) ''u1''
          (Some \<lparr>type = ''echo'', payload = ''x'', result = None, error = None\<rparr>))
     = TaskId ''t1''
   \<and> tasks (fst (snd (createTask calm_world (empty_store sample_lawyers) ''u1''
                         (Some \<lparr>type = ''echo'', payload = ''x'', result = None, error = None\<rparr>))))
        (''u1'', ''t1'')
     = Some \<lparr>type = ''echo'', payload = ''x'', result = None, error = None,
             status = Pending, createdAt = 7\<rparr>
   \<and> fst (createTask calm_world (empty_store sample_lawyers) ''u1''
            (Some \<lparr>type = [], payload = ''x'', result = None, error = None\<rparr>))
     = TaskId ''t1''
   \<and> tasks (fst (snd (createTask calm_world (empty_store sample_lawyers) ''u1''
                         (Some \<lparr>type = [], payload = ''x'', result = None, error = None\<rparr>))))
        (''u1'', ''t1'')
     = Some \<lparr>type = [], payload = ''x'', result = None, error = None,
             status = Pending, createdAt = 7\<rparr>"
  by (simp add: createTask_def addDoc_def new_task_def calm_world_def empty_store_def)

text \<open>
  Claim C6. When the initial write of the pending document fails with message \<open>m\<close>,
  \<^verbatim>\<open>createTask\<close> returns the error \<^verbatim>\<open>Failed to create the task. m\<close>, starts no handler, and the
  store (documents, history and log) is what it was: nothing was written and no handler was
  called.
\<close>

theorem initial_write_failure:
  assumes "userId \<noteq> []" and "addDoc w s userId (new_task w td) = Inl m"
  shows "createTask w s userId (Some td) = (Error (''Failed to create the task. '' @ m), s, None)
         \<and> submit w s userId (Some td) = (Error (''Failed to create the task. '' @ m), s)"
  using assms by (simp add: createTask_def submit_def)

text \<open>Claim C6 at a store that is unavailable.\<close>

theorem initial_write_failure_witness:
  "createTask (calm_world\<lparr>add_result := Inl ''UNAVAILABLE''\<rparr>) (empty_store sample_lawyers) ''u1''
        (Some ask_q)
     = (Error (''Failed to create the task. '' @ ''UNAVAILABLE''), empty_store sample_lawyers, None)
   \<and> submit (calm_world\<lparr>add_result := Inl ''UNAVAILABLE''\<rparr>) (empty_store sample_lawyers) ''u1''
        (Some ask_q)
     = (Error (''Failed to create the task. '' @ ''UNAVAILABLE''), empty_store sample_lawyers)"
proof -
  have u: "''u1'' \<noteq> []" by simp
  have h: "addDoc (calm_world\<lparr>add_result := Inl ''UNAVAILABLE''\<rparr>) (empty_store sample_lawyers)
             ''u1'' (new_task (calm_world\<lparr>add_result := Inl ''UNAVAILABLE''\<rparr>) ask_q)
           = Inl ''UNAVAILABLE''"
    by (simp add: addDoc_def)
  show ?thesis by (rule initial_write_failure[OF u h])
qed

lemma submit_response:
  "fst (submit w s userId taskData) = fst (createTask w s userId taskData)"
  by (cases "createTask w s userId taskData" rule: prod_cases3)
     (simp add: submit_def split: option.splits)

lemma createTask_response_on_success:
  assumes "userId \<noteq> []" and "add_result w = Inr tid" and "tasks s (userId, tid) = None"
  shows "fst (createTask w s userId (Some td)) = TaskId tid"
  using assms by (simp add: createTask_def addDoc_def)

text \<open>
  Claim C4. When the owner is not empty and the initial write succeeds (the store generates
  the id \<open>tid\<close>, which is free), the submission returns \<open>tid\<close>, and it returns the same
  \<open>tid\<close> in every world that differs in what the flows answer (a value, a failure value, an
  exception) and in what the later writes and queries do: the response depends on the
  initial write only.
\<close>

theorem response_independent_of_handler:
  assumes "userId \<noteq> []" and "add_result w = Inr tid" and "tasks s (userId, tid) = None"
  shows "fst (submit w s userId (Some td)) = TaskId tid
         \<and> fst (submit (w\<lparr>update_result := ur, classifyDocument := cd, askDocumentQuestion := aq,
                            lawyers_query_result := lq, history_add_result := ha\<rparr>)
                  s userId (Some td)) = TaskId tid"
proof -
  let ?w' = "w\<lparr>update_result := ur, classifyDocument := cd, askDocumentQuestion := aq,
                lawyers_query_result := lq, history_add_result := ha\<rparr>"
  have a: "add_result ?w' = Inr tid" using assms(2) by simp
  have "fst (createTask ?w' s userId (Some td)) = TaskId tid"
    using assms(1) a assms(3) by (rule createTask_response_on_success)
  moreover have "fst (createTask w s userId (Some td)) = TaskId tid"
    using assms by (rule createTask_response_on_success)
  ultimately show ?thesis by (simp add: submit_response)
qed

text \<open>
  Claim C4 at a question whose flow answers in one world and throws \<^verbatim>\<open>disk full\<close> in the
  other: the response is \<^verbatim>\<open>t1\<close> in both.
\<close>

theorem response_independent_of_handler_witness:
  "fst (submit calm_world (empty_store sample_lawyers) ''u1'' (Some ask_q)) = TaskId ''t1''
   \<and> fst (submit (calm_world\<lparr>update_result := update_result stubborn_world,
                              classifyDocument := classifyDocument stubborn_world,
                              askDocumentQuestion := askDocumentQuestion stubborn_world,
                              lawyers_query_result := None,
                              history_add_result := Some ''history is read-only''\<rparr>)
             (empty_store sample_lawyers) ''u1'' (Some ask_q))
     = TaskId ''t1''"
proof -
  have u: "''u1'' \<noteq> []" by simp
  have a: "add_result calm_world = Inr ''t1''" by (simp add: calm_world_def)
  have f: "tasks (empty_store sample_lawyers) (''u1'', ''t1'') = None" by (simp add: empty_store_def)
  show ?thesis by (rule response_independent_of_handler[OF u a f])
qed

text \<open>
  Claim C10. For an owner that is not empty and task data whose type is neither
  \<^verbatim>\<open>classifyDocument\<close> nor \<^verbatim>\<open>askQuestion\<close>, when the store accepts the initial write under
  the id \<open>tid\<close>: \<^verbatim>\<open>createTask\<close> creates the document with status \<^verbatim>\<open>pending\<close>, returns \<open>tid\<close>
  and starts no handler; and after any number of later submissions the document is the
  same pending document, and the events of the log about this task are the ones from
  before and that one initial write: no handler call and no status update ever follows.
\<close>

theorem unknown_type_stays_pending:
  assumes "userId \<noteq> []"
      and "type td \<noteq> ''classifyDocument''" and "type td \<noteq> ''askQuestion''"
      and "add_result w = Inr tid" and "tasks s (userId, tid) = None"
  shows "createTask w s userId (Some td) =
           (TaskId tid,
            s\<lparr>tasks := (tasks s)((userId, tid) \<mapsto> new_task w td),
               event_log := event_log s @ [Wrote userId tid (new_task w td)]\<rparr>,
            None)
         \<and> status (new_task w td) = Pending
         \<and> tasks (submit_all (snd (submit w s userId (Some td))) later) (userId, tid)
             = Some (new_task w td)
         \<and> filter (concerns (userId, tid)) (event_log (submit_all (snd (submit w s userId (Some td))) later))
             = filter (concerns (userId, tid)) (event_log s) @ [Wrote userId tid (new_task w td)]"
proof -
  let ?s1 = "s\<lparr>tasks := (tasks s)((userId, tid) \<mapsto> new_task w td),
               event_log := event_log s @ [Wrote userId tid (new_task w td)]\<rparr>"
  have c: "createTask w s userId (Some td) = (TaskId tid, ?s1, None)"
    using createTask_success[OF assms(1,4,5), of td] assms(2,3) by simp
  then have s: "snd (submit w s userId (Some td)) = ?s1" by (simp add: submit_def)
  have "tasks ?s1 (userId, tid) = Some (new_task w td)" by simp
  from submit_all_frame[OF this, of later]
  have "tasks (submit_all ?s1 later) (userId, tid) = Some (new_task w td)"
    and "filter (concerns (userId, tid)) (event_log (submit_all ?s1 later))
           = filter (concerns (userId, tid)) (event_log s) @ [Wrote userId tid (new_task w td)]"
    by simp_all
  with c s show ?thesis by simp
qed

text \<open>
  Claim C10 at the type \<^verbatim>\<open>echo\<close>, followed by a question and a classification of the same
  owner.
\<close>

theorem unknown_type_stays_pending_witness:
  "createTask calm_world (empty_store sample_lawyers) ''u1'' (Some echo_x) =
           (TaskId ''t1'',
            (empty_store sample_lawyers)
              \<lparr>tasks := (tasks (empty_store sample_lawyers))((''u1'', ''t1'') \<mapsto> new_task calm_world echo_x),
               event_log := event_log (empty_store sample_lawyers) @ [Wrote ''u1'' ''t1'' (new_task calm_world echo_x)]\<rparr>,
            None)
   \<and> status (new_task calm_world echo_x) = Pending
   \<and> tasks (submit_all (snd (submit calm_world (empty_store sample_lawyers) ''u1'' (Some echo_x)))
              [(stubborn_world, ''u1'', Some ask_q), (stubborn_world, ''u1'', Some classify_f)])
        (''u1'', ''t1'')
       = Some (new_task calm_world echo_x)
   \<and> filter (concerns (''u1'', ''t1''))
        (event_log (submit_all (snd (submit calm_world (empty_store sample_lawyers) ''u1'' (Some echo_x)))
               [(stubborn_world, ''u1'', Some ask_q), (stubborn_world, ''u1'', Some classify_f)]))
       = filter (concerns (''u1'', ''t1'')) (event_log (empty_store sample_lawyers))
         @ [Wrote ''u1'' ''t1'' (new_task calm_world echo_x)]"
proof -
  have u: "''u1'' \<noteq> []" by simp
  have t1: "type echo_x \<noteq> ''classifyDocument''" by (simp add: echo_x_def)
  have t2: "type echo_x \<noteq> ''askQuestion''" by (simp add: echo_x_def)
  have a: "add_result calm_world = Inr ''t1''" by (simp add: calm_world_def)
  have f: "tasks (empty_store sample_lawyers) (''u1'', ''t1'') = None" by (simp add: empty_store_def)
  show ?thesis by (rule unknown_type_stays_pending[OF u t1 t2 a f])
qed

section \<open>The life of a task\<close>

text \<open>
  Claim C2. After any sequence of submissions, starting from a store without tasks, the
  status values written to any task, in the order of the writes, are a subsequence of
  \<^verbatim>\<open>pending, processing, completed\<close> or of \<^verbatim>\<open>pending, processing, failed\<close>, and no write
  follows the write of a terminal status.
\<close>

theorem status_writes_monotone:
  "(subseq (status_writes k (event_log (submit_all (empty_store ls) subs)))
           [Pending, Processing, Completed]
    \<or> subseq (status_writes k (event_log (submit_all (empty_store ls) subs)))
           [Pending, Processing, Failed])
   \<and> terminal_is_last (status_writes k (event_log (submit_all (empty_store ls) subs)))"
proof -
  let ?s = "submit_all (empty_store ls) subs"
  have inv: "store_inv ?s" using empty_store_inv by (rule submit_all_inv)
  show ?thesis
  proof (cases "tasks ?s k")
    case None
    with inv have "filter (concerns k) (event_log ?s) = []" by (rule store_inv_absent)
    then have "revisions k (event_log ?s) = []" by (rule no_events_no_revisions)
    then show ?thesis by (simp add: status_writes_def)
  next
    case (Some t)
    with inv have "shape_ok (revisions k (event_log ?s)) t" by (rule store_inv_present)
    then show ?thesis unfolding status_writes_def by (rule shape_ok_statuses)
  qed
qed

text \<open>
  Claim C2 at a question that is answered and a classification that fails: the writes to
  the second task are \<^verbatim>\<open>pending, processing, failed\<close>.
\<close>

theorem status_writes_monotone_witness:
  "status_writes (''u1'', ''t2'')
     (event_log (submit_all (empty_store sample_lawyers)
            [(calm_world, ''u1'', Some ask_q), (stubborn_world, ''u1'', Some classify_f)]))
     = [Pending, Processing, Failed]
   \<and> (subseq (status_writes (''u1'', ''t2'')
                (event_log (submit_all (empty_store sample_lawyers)
                       [(calm_world, ''u1'', Some ask_q), (stubborn_world, ''u1'', Some classify_f)])))
              [Pending, Processing, Completed]
        \<or> subseq (status_writes (''u1'', ''t2'')
                (event_log (submit_all (empty_store sample_lawyers)
                       [(calm_world, ''u1'', Some ask_q), (stubborn_world, ''u1'', Some classify_f)])))
              [Pending, Processing, Failed])
   \<and> terminal_is_last (status_writes (''u1'', ''t2'')
                (event_log (submit_all (empty_store sample_lawyers)
                       [(calm_world, ''u1'', Some ask_q), (stubborn_world, ''u1'', Some classify_f)])))"
proof -
  have e: "status_writes (''u1'', ''t2'')
     (event_log (submit_all (empty_store sample_lawyers)
            [(calm_world, ''u1'', Some ask_q), (stubborn_world, ''u1'', Some classify_f)]))
     = [Pending, Processing, Failed]"
    by (simp add: run_defs status_writes_def calm_world_def stubborn_world_def ask_q_def
                  classify_f_def)
  show ?thesis by (rule conjI[OF e status_writes_monotone])
qed




section \<open>What the handlers record\<close>

lemma ask_completes:
  assumes "tasks s (u, t) = Some t0" and "update_result w Processing = None"
      and "askDocumentQuestion w pl = Returns a" and "update_result w Completed = None"
  shows "tasks (processAskQuestionTask w s u t pl) (u, t)
           = Some (t0\<lparr>status := Completed, result := Some (AskResult a)\<rparr>)"
  using assms by (simp add: processAskQuestionTask_def updateTask_def Let_def)

lemma ask_fails:
  assumes "tasks s (u, t) = Some t0" and "update_result w Processing = None"
      and "askDocumentQuestion w pl = Throws m \<or> askDocumentQuestion w pl = ReturnsError m"
      and "update_result w Failed = None"
  shows "tasks (processAskQuestionTask w s u t pl) (u, t)
           = Some (t0\<lparr>status := Failed, error := Some m\<rparr>)"
  using assms
  by (auto simp: processAskQuestionTask_def updateTask_def catch_failed_def Let_def)

lemma classify_completes:
  assumes "tasks s (u, t) = Some t0" and "update_result w Processing = None"
      and "classifyDocument w pl = Returns r" and "build_final_result w s r = Inr fr"
      and "update_result w Completed = None"
  shows "tasks (processClassifyDocumentTask w s u t pl) (u, t)
           = Some (t0\<lparr>status := Completed, result := Some (ClassifyResult fr)\<rparr>)"
  using assms by (simp add: processClassifyDocumentTask_def updateTask_def Let_def)

lemma classify_fails:
  assumes "tasks s (u, t) = Some t0" and "update_result w Processing = None"
      and "classifyDocument w pl = Throws m \<or> classifyDocument w pl = ReturnsError m"
      and "update_result w Failed = None"
  shows "tasks (processClassifyDocumentTask w s u t pl) (u, t)
           = Some (t0\<lparr>status := Failed, error := Some m\<rparr>)"
  using assms
  by (auto simp: processClassifyDocumentTask_def updateTask_def catch_failed_def Let_def)

text \<open>
  When the store refuses the update to \<^verbatim>\<open>completed\<close> with message \<open>m\<close>, that exception is
  caught like any other: the task is recorded as \<^verbatim>\<open>failed\<close> with \<open>m\<close>, if the store accepts
  that update.
\<close>

lemma ask_completed_write_refused:
  assumes "tasks s (u, t) = Some t0" and "update_result w Processing = None"
      and "askDocumentQuestion w pl = Returns a" and "update_result w Completed = Some m"
      and "update_result w Failed = None"
  shows "tasks (processAskQuestionTask w s u t pl) (u, t)
           = Some (t0\<lparr>status := Failed, error := Some m\<rparr>)"
  using assms
  by (simp add: processAskQuestionTask_def updateTask_def catch_failed_def Let_def)

text \<open>
  Claim C5, as the code has it. Take a submitted task (the owner is not empty, the store
  created the document under \<open>tid\<close>) whose handler runs (the update to \<^verbatim>\<open>processing\<close> is
  accepted). For a question: when the flow returns the value \<open>a\<close> and the store accepts the
  update to \<^verbatim>\<open>completed\<close>, the document ends as \<^verbatim>\<open>completed\<close> with \<open>a\<close> in \<^verbatim>\<open>result\<close>; when
  the flow throws with message \<open>m\<close> or returns the failure value \<^verbatim>\<open>{ error: m }\<close> and the
  store accepts the update to \<^verbatim>\<open>failed\<close>, it ends as \<^verbatim>\<open>failed\<close> with \<^verbatim>\<open>error\<close> equal to
  \<open>m\<close>. For a classification the same holds when the lawyer lookup does not throw, and
  the stored result is the returned classification \<open>r\<close> together with the lawyers that
  the lookup found and the cost range.
\<close>

theorem handler_outcome_decides_final_status:
  assumes "userId \<noteq> []" and "add_result w = Inr tid" and "tasks s (userId, tid) = None"
      and "update_result w Processing = None"
  shows "(type td = ''askQuestion'' \<longrightarrow>
            (askDocumentQuestion w (payload td) = Returns a \<and> update_result w Completed = None \<longrightarrow>
               tasks (snd (submit w s userId (Some td))) (userId, tid)
                 = Some ((new_task w td)\<lparr>status := Completed, result := Some (AskResult a)\<rparr>))
            \<and> ((askDocumentQuestion w (payload td) = Throws m
                  \<or> askDocumentQuestion w (payload td) = ReturnsError m)
                 \<and> update_result w Failed = None \<longrightarrow>
               tasks (snd (submit w s userId (Some td))) (userId, tid)
                 = Some ((new_task w td)\<lparr>status := Failed, error := Some m\<rparr>)))
         \<and> (type td = ''classifyDocument'' \<longrightarrow>
            (classifyDocument w (payload td) = Returns r \<and> build_final_result w s r = Inr fr
                 \<and> update_result w Completed = None \<longrightarrow>
               analysis fr = r
               \<and> tasks (snd (submit w s userId (Some td))) (userId, tid)
                 = Some ((new_task w td)\<lparr>status := Completed, result := Some (ClassifyResult fr)\<rparr>))
            \<and> ((classifyDocument w (payload td) = Throws m
                  \<or> classifyDocument w (payload td) = ReturnsError m)
                 \<and> update_result w Failed = None \<longrightarrow>
               tasks (snd (submit w s userId (Some td))) (userId, tid)
                 = Some ((new_task w td)\<lparr>status := Failed, error := Some m\<rparr>)))"
proof -
  let ?s1 = "s\<lparr>tasks := (tasks s)((userId, tid) \<mapsto> new_task w td),
               event_log := event_log s @ [Wrote userId tid (new_task w td)]\<rparr>"
  let ?final = "tasks (snd (submit w s userId (Some td))) (userId, tid)"
  have t1: "tasks ?s1 (userId, tid) = Some (new_task w td)" by simp
  have c: "createTask w s userId (Some td) =
             (TaskId tid, ?s1,
              if type td = ''classifyDocument'' then Some (ClassifyJob userId tid (payload td))
              else if type td = ''askQuestion'' then Some (AskJob userId tid (payload td))
              else None)"
    using assms(1,2,3) by (rule createTask_success)
  have ask: "?final = Some ((new_task w td)\<lparr>status := Completed, result := Some (AskResult a)\<rparr>)"
    if "type td = ''askQuestion''" "askDocumentQuestion w (payload td) = Returns a"
       "update_result w Completed = None"
  proof -
    from c that(1) have "snd (submit w s userId (Some td))
                           = processAskQuestionTask w ?s1 userId tid (payload td)"
      by (simp add: submit_def)
    with ask_completes[OF t1 assms(4) that(2,3)] show ?thesis by simp
  qed
  have ask_f: "?final = Some ((new_task w td)\<lparr>status := Failed, error := Some m\<rparr>)"
    if "type td = ''askQuestion''"
       "askDocumentQuestion w (payload td) = Throws m
        \<or> askDocumentQuestion w (payload td) = ReturnsError m"
       "update_result w Failed = None"
  proof -
    from c that(1) have "snd (submit w s userId (Some td))
                           = processAskQuestionTask w ?s1 userId tid (payload td)"
      by (simp add: submit_def)
    with ask_fails[OF t1 assms(4) that(2,3)] show ?thesis by simp
  qed
  have cls: "analysis fr = r
             \<and> ?final = Some ((new_task w td)\<lparr>status := Completed, result := Some (ClassifyResult fr)\<rparr>)"
    if "type td = ''classifyDocument''" "classifyDocument w (payload td) = Returns r"
       "build_final_result w s r = Inr fr" "update_result w Completed = None"
  proof -
    from c that(1) have "snd (submit w s userId (Some td))
                           = processClassifyDocumentTask w ?s1 userId tid (payload td)"
      by (simp add: submit_def)
    moreover have "build_final_result w ?s1 r = Inr fr" using that(3) by simp
    ultimately show ?thesis
      using classify_completes[OF t1 assms(4) that(2) _ that(4), of fr]
            build_final_result_analysis[OF that(3)]
      by simp
  qed
  have cls_f: "?final = Some ((new_task w td)\<lparr>status := Failed, error := Some m\<rparr>)"
    if "type td = ''classifyDocument''"
       "classifyDocument w (payload td) = Throws m
        \<or> classifyDocument w (payload td) = ReturnsError m"
       "update_result w Failed = None"
  proof -
    from c that(1) have "snd (submit w s userId (Some td))
                           = processClassifyDocumentTask w ?s1 userId tid (payload td)"
      by (simp add: submit_def)
    with classify_fails[OF t1 assms(4) that(2,3)] show ?thesis by simp
  qed
  from ask ask_f cls cls_f show ?thesis by blast
qed

text \<open>
  Claim C5, amended, at four runs: a question that is answered, a question whose flow throws
  \<^verbatim>\<open>disk full\<close>, a classification that is answered, and a classification whose flow returns
  a failure value.
\<close>

theorem handler_outcome_decides_final_status_witness:
  "tasks (snd (submit calm_world (empty_store sample_lawyers) ''u1'' (Some ask_q))) (''u1'', ''t1'')
     = Some ((new_task calm_world ask_q)\<lparr>status := Completed, result := Some (AskResult ''q'')\<rparr>)
   \<and> tasks (snd (submit stubborn_world (empty_store sample_lawyers) ''u1'' (Some ask_q))) (''u1'', ''t2'')
     = Some ((new_task stubborn_world ask_q)\<lparr>status := Failed, error := Some ''disk full''\<rparr>)
   \<and> tasks (snd (submit calm_world (empty_store sample_lawyers) ''u1'' (Some classify_f))) (''u1'', ''t1'')
     = Some ((new_task calm_world classify_f)
               \<lparr>status := Completed, result := Some (ClassifyResult sample_final)\<rparr>)
   \<and> tasks (snd (submit stubborn_world (empty_store sample_lawyers) ''u1'' (Some classify_f))) (''u1'', ''t2'')
     = Some ((new_task stubborn_world classify_f)
               \<lparr>status := Failed, error := Some ''Failed to get a response from the AI. quota''\<rparr>)"
proof -
  have u: "''u1'' \<noteq> []" by simp
  have a1: "add_result calm_world = Inr ''t1''" by (simp add: calm_world_def)
  have a2: "add_result stubborn_world = Inr ''t2''" by (simp add: stubborn_world_def)
  have f1: "tasks (empty_store sample_lawyers) (''u1'', ''t1'') = None" by (simp add: empty_store_def)
  have f2: "tasks (empty_store sample_lawyers) (''u1'', ''t2'') = None" by (simp add: empty_store_def)
  have p1: "update_result calm_world Processing = None" by (simp add: calm_world_def)
  have p2: "update_result stubborn_world Processing = None" by (simp add: stubborn_world_def)
  have q: "type ask_q = ''askQuestion''" "type classify_f = ''classifyDocument''"
    by (simp_all add: ask_q_def classify_f_def)
  have o1: "askDocumentQuestion calm_world (payload ask_q) = Returns ''q''
            \<and> update_result calm_world Completed = None"
    by (simp add: calm_world_def ask_q_def)
  have o2: "(askDocumentQuestion stubborn_world (payload ask_q) = Throws ''disk full''
             \<or> askDocumentQuestion stubborn_world (payload ask_q) = ReturnsError ''disk full'')
            \<and> update_result stubborn_world Failed = None"
    by (simp add: stubborn_world_def)
  have o3: "classifyDocument calm_world (payload classify_f) = Returns sample_answer
            \<and> build_final_result calm_world (empty_store sample_lawyers) sample_answer = Inr sample_final
            \<and> update_result calm_world Completed = None"
    by (simp add: run_defs calm_world_def classify_f_def sample_answer_def sample_lawyers_def
                  sample_final_def)
  have o4: "(classifyDocument stubborn_world (payload classify_f)
               = Throws ''Failed to get a response from the AI. quota''
             \<or> classifyDocument stubborn_world (payload classify_f)
               = ReturnsError ''Failed to get a response from the AI. quota'')
            \<and> update_result stubborn_world Failed = None"
    by (simp add: stubborn_world_def)
  from handler_outcome_decides_final_status[OF u a1 f1 p1, where td = ask_q and a = "''q''"] q o1
  have r1: "tasks (snd (submit calm_world (empty_store sample_lawyers) ''u1'' (Some ask_q))) (''u1'', ''t1'')
     = Some ((new_task calm_world ask_q)\<lparr>status := Completed, result := Some (AskResult ''q'')\<rparr>)"
    by blast
  from handler_outcome_decides_final_status[OF u a2 f2 p2, where td = ask_q and m = "''disk full''"] q o2
  have r2: "tasks (snd (submit stubborn_world (empty_store sample_lawyers) ''u1'' (Some ask_q))) (''u1'', ''t2'')
     = Some ((new_task stubborn_world ask_q)\<lparr>status := Failed, error := Some ''disk full''\<rparr>)"
    by blast
  from handler_outcome_decides_final_status[OF u a1 f1 p1, where td = classify_f
         and r = sample_answer and fr = sample_final] q o3
  have r3: "tasks (snd (submit calm_world (empty_store sample_lawyers) ''u1'' (Some classify_f))) (''u1'', ''t1'')
     = Some ((new_task calm_world classify_f)
               \<lparr>status := Completed, result := Some (ClassifyResult sample_final)\<rparr>)"
    by blast
  from handler_outcome_decides_final_status[OF u a2 f2 p2, where td = classify_f
         and m = "''Failed to get a response from the AI. quota''"] q o4
  have r4: "tasks (snd (submit stubborn_world (empty_store sample_lawyers) ''u1'' (Some classify_f))) (''u1'', ''t2'')
     = Some ((new_task stubborn_world classify_f)
               \<lparr>status := Failed, error := Some ''Failed to get a response from the AI. quota''\<rparr>)"
    by blast
  from r1 r2 r3 r4 show ?thesis by (intro conjI)
qed

text \<open>
  Claim C5 as stated fails at three runs of a handler that has started. A question is
  answered, the store refuses the update to \<^verbatim>\<open>completed\<close>, and the task ends as \<^verbatim>\<open>failed\<close>
  with the message of the store. A question's flow throws \<^verbatim>\<open>disk full\<close>, the store refuses
  the update to \<^verbatim>\<open>failed\<close>, and the task stays \<^verbatim>\<open>processing\<close> without an error. A
  classification is returned, the lawyer lookup throws, and the task ends as \<^verbatim>\<open>failed\<close> with
  the message of the lookup.
\<close>

theorem handler_result_not_recorded:
  "askDocumentQuestion (calm_world\<lparr>update_result := refuse_completed\<rparr>) (payload ask_q)
     = Returns ''q''
   \<and> Invoked ''u1'' ''t1'' ''askQuestion''
       \<in> set (event_log (snd (submit (calm_world\<lparr>update_result := refuse_completed\<rparr>)
                                (empty_store sample_lawyers) ''u1'' (Some ask_q))))
   \<and> tasks (snd (submit (calm_world\<lparr>update_result := refuse_completed\<rparr>)
                  (empty_store sample_lawyers) ''u1'' (Some ask_q))) (''u1'', ''t1'')
     = Some \<lparr>type = ''askQuestion'', payload = ''q'', result = None,
             error = Some ''RESOURCE_EXHAUSTED'', status = Failed, createdAt = 7\<rparr>
   \<and> askDocumentQuestion (stubborn_world\<lparr>update_result := refuse_failed\<rparr>) (payload ask_q)
     = Throws ''disk full''
   \<and> Invoked ''u1'' ''t2'' ''askQuestion''
       \<in> set (event_log (snd (submit (stubborn_world\<lparr>update_result := refuse_failed\<rparr>)
                                (empty_store sample_lawyers) ''u1'' (Some ask_q))))
   \<and> tasks (snd (submit (stubborn_world\<lparr>update_result := refuse_failed\<rparr>)
                  (empty_store sample_lawyers) ''u1'' (Some ask_q))) (''u1'', ''t2'')
     = Some \<lparr>type = ''askQuestion'', payload = ''q'', result = None, error = None,
             status = Processing, createdAt = 9\<rparr>
   \<and> classifyDocument (calm_world\<lparr>lawyers_query_result := Some ''PERMISSION_DENIED''\<rparr>)
        (payload classify_f)
     = Returns sample_answer
   \<and> Invoked ''u1'' ''t1'' ''classifyDocument''
       \<in> set (event_log (snd (submit (calm_world\<lparr>lawyers_query_result := Some ''PERMISSION_DENIED''\<rparr>)
                                (empty_store sample_lawyers) ''u1'' (Some classify_f))))
   \<and> tasks (snd (submit (calm_world\<lparr>lawyers_query_result := Some ''PERMISSION_DENIED''\<rparr>)
                  (empty_store sample_lawyers) ''u1'' (Some classify_f))) (''u1'', ''t1'')
     = Some \<lparr>type = ''classifyDocument'', payload = ''file'', result = None,
             error = Some ''PERMISSION_DENIED'', status = Failed, createdAt = 7\<rparr>"
  by (simp add: run_defs calm_world_def stubborn_world_def ask_q_def classify_f_def
                sample_answer_def refuse_completed_def refuse_failed_def)

text \<open>
  Claim C9. In \<^verbatim>\<open>processClassifyDocumentTask\<close>, when the run reaches the write to the
  history (the update to \<^verbatim>\<open>processing\<close> is accepted, the classification \<open>r\<close> is returned,
  the final result \<open>fr\<close> is built) and that write fails, the task is not failed: with the
  update to \<^verbatim>\<open>completed\<close> accepted, the document ends as \<^verbatim>\<open>completed\<close> with the full result
  \<open>fr\<close>; the history is what it was; and the store differs from the store of the run in
  which the history accepts the write in the history alone.
\<close>

theorem history_failure_does_not_fail_task:
  assumes "tasks s (u, t) = Some t0"
      and "update_result w Processing = None"
      and "classifyDocument w pl = Returns r"
      and "build_final_result w s r = Inr fr"
      and "history_add_result w = Some m"
      and "update_result w Completed = None"
  shows "tasks (processClassifyDocumentTask w s u t pl) (u, t)
           = Some (t0\<lparr>status := Completed, result := Some (ClassifyResult fr)\<rparr>)
         \<and> history (processClassifyDocumentTask w s u t pl) = history s
         \<and> processClassifyDocumentTask w s u t pl
           = (processClassifyDocumentTask (w\<lparr>history_add_result := None\<rparr>) s u t pl)
               \<lparr>history := history s\<rparr>"
proof -
  let ?w' = "w\<lparr>history_add_result := None\<rparr>"
  let ?done = "t0\<lparr>status := Completed, result := Some (ClassifyResult fr)\<rparr>"
  let ?evs = "[Wrote u t (t0\<lparr>status := Processing\<rparr>), Invoked u t ''classifyDocument'',
               Wrote u t ?done]"
  have failing: "processClassifyDocumentTask w s u t pl
                   = s\<lparr>tasks := (tasks s)((u, t) \<mapsto> ?done), event_log := event_log s @ ?evs\<rparr>"
    using assms
    by (simp add: processClassifyDocumentTask_def updateTask_def Let_def save_to_history_def)
  have succeeding: "processClassifyDocumentTask ?w' s u t pl
                   = s\<lparr>tasks := (tasks s)((u, t) \<mapsto> ?done),
                       history := history s @
                         [(u, \<lparr>saved_result = fr, saved_file = pl, saved_at = now w\<rparr>)],
                       event_log := event_log s @ ?evs\<rparr>"
    using assms(1,2,3,4,6)
    by (simp add: processClassifyDocumentTask_def updateTask_def Let_def save_to_history_def)
  show ?thesis
    unfolding failing succeeding by simp
qed

text \<open>Claim C9 at a pending classification and a history that is read-only.\<close>

theorem history_failure_does_not_fail_task_witness:
  "tasks (processClassifyDocumentTask (calm_world\<lparr>history_add_result := Some ''read-only''\<rparr>)
            pending_store ''u1'' ''t1'' ''file'') (''u1'', ''t1'')
     = Some (pending_doc\<lparr>status := Completed, result := Some (ClassifyResult sample_final)\<rparr>)
   \<and> history (processClassifyDocumentTask (calm_world\<lparr>history_add_result := Some ''read-only''\<rparr>)
                pending_store ''u1'' ''t1'' ''file'')
     = history pending_store
   \<and> processClassifyDocumentTask (calm_world\<lparr>history_add_result := Some ''read-only''\<rparr>)
        pending_store ''u1'' ''t1'' ''file''
     = (processClassifyDocumentTask
          (calm_world\<lparr>history_add_result := Some ''read-only''\<rparr>\<lparr>history_add_result := None\<rparr>)
          pending_store ''u1'' ''t1'' ''file'')
         \<lparr>history := history pending_store\<rparr>"
proof -
  let ?w = "calm_world\<lparr>history_add_result := Some ''read-only''\<rparr>"
  have h1: "tasks pending_store (''u1'', ''t1'') = Some pending_doc"
    by (simp add: pending_store_def)
  have h2: "update_result ?w Processing = None" by (simp add: calm_world_def)
  have h3: "classifyDocument ?w ''file'' = Returns sample_answer" by (simp add: calm_world_def)
  have h4: "build_final_result ?w pending_store sample_answer = Inr sample_final"
    by (simp add: run_defs pending_store_def calm_world_def sample_answer_def sample_lawyers_def
                  sample_final_def)
  have h5: "history_add_result ?w = Some ''read-only''" by simp
  have h6: "update_result ?w Completed = None" by (simp add: calm_world_def)
  show ?thesis by (rule history_failure_does_not_fail_task[OF h1 h2 h3 h4 h5 h6])
qed

section \<open>What the hook reports\<close>

lemma foldl_dispatch_detached: "\<not> subscribed h \<Longrightarrow> foldl dispatch h evs = h"
  by (induction evs) (simp_all add: dispatch_def)

text \<open>
  Claim C7. When the listener of \<^verbatim>\<open>useTask\<close> is attached and receives a document whose
  status is \<^verbatim>\<open>completed\<close> or \<^verbatim>\<open>failed\<close>, \<^verbatim>\<open>onUpdate\<close> is called with that document, the
  callback detaches the listener, and whatever events follow change nothing: \<^verbatim>\<open>onUpdate\<close> is
  not called again. In particular a subscription to a task that is terminal already makes
  one call of \<^verbatim>\<open>onUpdate\<close>, with the terminal document.
\<close>

theorem terminal_snapshot_ends_subscription:
  assumes "subscribed h" and "status t = Completed \<or> status t = Failed" and "tid \<noteq> []"
  shows "\<not> subscribed (dispatch h (DocSnapshot (Some t)))
         \<and> onUpdate_calls (dispatch h (DocSnapshot (Some t))) = onUpdate_calls h @ [t]
         \<and> foldl dispatch (dispatch h (DocSnapshot (Some t))) evs = dispatch h (DocSnapshot (Some t))
         \<and> onUpdate_calls (useTask (Some tid) (Some user) (DocSnapshot (Some t) # evs)) = [t]"
proof -
  let ?h' = "dispatch h (DocSnapshot (Some t))"
  from assms(1,2) have off: "\<not> subscribed ?h'"
    by (auto simp: dispatch_def on_snapshot_def Let_def)
  from assms(1,2) have calls: "onUpdate_calls ?h' = onUpdate_calls h @ [t]"
    by (auto simp: dispatch_def on_snapshot_def Let_def)
  from off have stay: "foldl dispatch ?h' evs = ?h'" by (rule foldl_dispatch_detached)
  let ?h0 = "useEffect_body (Some tid) (Some user) initial_hook"
  have sub0: "subscribed ?h0" using assms(3) by (simp add: useEffect_body_def)
  have first: "onUpdate_calls (dispatch ?h0 (DocSnapshot (Some t))) = [t]"
    using sub0 assms(2,3)
    by (auto simp: dispatch_def on_snapshot_def Let_def useEffect_body_def initial_hook_def)
  have "\<not> subscribed (dispatch ?h0 (DocSnapshot (Some t)))"
    using sub0 assms(2) by (auto simp: dispatch_def on_snapshot_def Let_def)
  then have "foldl dispatch (dispatch ?h0 (DocSnapshot (Some t))) evs
               = dispatch ?h0 (DocSnapshot (Some t))"
    by (rule foldl_dispatch_detached)
  with first have "onUpdate_calls (useTask (Some tid) (Some user) (DocSnapshot (Some t) # evs)) = [t]"
    by (simp add: useTask_def)
  with off calls stay show ?thesis by simp
qed

text \<open>
  Claim C7 at a completed task, with the same document and a missing document sent again
  afterwards.
\<close>

theorem terminal_snapshot_ends_subscription_witness:
  "\<not> subscribed (dispatch listening_hook (DocSnapshot (Some done_task)))
   \<and> onUpdate_calls (dispatch listening_hook (DocSnapshot (Some done_task)))
       = onUpdate_calls listening_hook @ [done_task]
   \<and> foldl dispatch (dispatch listening_hook (DocSnapshot (Some done_task)))
         [DocSnapshot (Some done_task), DocSnapshot None]
       = dispatch listening_hook (DocSnapshot (Some done_task))
   \<and> onUpdate_calls (useTask (Some ''t1'') (Some ''u1'')
         (DocSnapshot (Some done_task) # [DocSnapshot (Some done_task), DocSnapshot None]))
       = [done_task]"
proof -
  have h1: "subscribed listening_hook" by (simp add: listening_hook_def)
  have h2: "status done_task = Completed \<or> status done_task = Failed" by (simp add: done_task_def)
  have h3: "''t1'' \<noteq> []" by simp
  show ?thesis by (rule terminal_snapshot_ends_subscription[OF h1 h2 h3])
qed

lemma not_found_run:
  "subscribed g \<Longrightarrow>
     subscribed (foldl dispatch g (replicate (Suc k) (DocSnapshot None)))
     \<and> hook_error (foldl dispatch g (replicate (Suc k) (DocSnapshot None))) = Some ''Task not found.''
     \<and> \<not> isLoading (foldl dispatch g (replicate (Suc k) (DocSnapshot None)))
     \<and> onUpdate_calls (foldl dispatch g (replicate (Suc k) (DocSnapshot None))) = onUpdate_calls g"
proof (induction k arbitrary: g)
  case 0
  then show ?case by (simp add: dispatch_def on_snapshot_def)
next
  case (Suc k)
  have "subscribed (dispatch g (DocSnapshot None))"
    using Suc.prems by (simp add: dispatch_def on_snapshot_def)
  from Suc.IH[OF this] Suc.prems show ?case
    by (simp add: dispatch_def on_snapshot_def)
qed

text \<open>
  Claim C8. When the listener is attached and the snapshot says that the document does not
  exist, the hook reports \<^verbatim>\<open>Task not found.\<close> in its own \<^verbatim>\<open>error\<close> state, stops loading, and does
  not call \<^verbatim>\<open>onUpdate\<close>. A subscription to a task that is never created (every snapshot
  says that the document does not exist) ends with that error and with no call of
  \<^verbatim>\<open>onUpdate\<close> at all.
\<close>

theorem missing_task_reports_not_found:
  fixes h :: "'v hook"
  assumes "subscribed h" and "tid \<noteq> []"
  shows "hook_error (dispatch h (DocSnapshot None)) = Some ''Task not found.''
         \<and> \<not> isLoading (dispatch h (DocSnapshot None))
         \<and> onUpdate_calls (dispatch h (DocSnapshot None)) = onUpdate_calls h
         \<and> hook_error (useTask (Some tid) (Some user) (replicate (Suc n) (DocSnapshot None)) :: 'v hook)
             = Some ''Task not found.''
         \<and> \<not> isLoading (useTask (Some tid) (Some user) (replicate (Suc n) (DocSnapshot None)) :: 'v hook)
         \<and> onUpdate_calls (useTask (Some tid) (Some user) (replicate (Suc n) (DocSnapshot None)) :: 'v hook)
             = []"
proof -
  have step: "hook_error (dispatch h (DocSnapshot None)) = Some ''Task not found.''
         \<and> \<not> isLoading (dispatch h (DocSnapshot None))
         \<and> onUpdate_calls (dispatch h (DocSnapshot None)) = onUpdate_calls h"
    using assms(1) by (simp add: dispatch_def on_snapshot_def)
  let ?h0 = "useEffect_body (Some tid) (Some user) (initial_hook :: 'v hook)"
  have "subscribed ?h0" using assms(2) by (simp add: useEffect_body_def)
  from not_found_run[OF this, of n]
  have "hook_error (foldl dispatch ?h0 (replicate (Suc n) (DocSnapshot None))) = Some ''Task not found.''"
    and "\<not> isLoading (foldl dispatch ?h0 (replicate (Suc n) (DocSnapshot None)))"
    and "onUpdate_calls (foldl dispatch ?h0 (replicate (Suc n) (DocSnapshot None))) = onUpdate_calls ?h0"
    by blast+
  moreover have "onUpdate_calls ?h0 = []"
    using assms(2) by (simp add: useEffect_body_def initial_hook_def)
  ultimately show ?thesis using step unfolding useTask_def by simp
qed

text \<open>Claim C8 at a task id that the store answers for three times, never with a document.\<close>

theorem missing_task_reports_not_found_witness:
  "hook_error (dispatch listening_hook (DocSnapshot None)) = Some ''Task not found.''
   \<and> \<not> isLoading (dispatch listening_hook (DocSnapshot None))
   \<and> onUpdate_calls (dispatch listening_hook (DocSnapshot None)) = onUpdate_calls listening_hook
   \<and> hook_error (useTask (Some ''t9'') (Some ''u1'') (replicate (Suc 2) (DocSnapshot None)) :: string hook)
       = Some ''Task not found.''
   \<and> \<not> isLoading (useTask (Some ''t9'') (Some ''u1'') (replicate (Suc 2) (DocSnapshot None)) :: string hook)
   \<and> onUpdate_calls (useTask (Some ''t9'') (Some ''u1'') (replicate (Suc 2) (DocSnapshot None)) :: string hook)
       = []"
proof -
  have h1: "subscribed listening_hook" by (simp add: listening_hook_def)
  have h2: "''t9'' \<noteq> []" by simp
  show ?thesis by (rule missing_task_reports_not_found[OF h1 h2])
qed

end
